theory Spec2Isabelle
  imports Complex_Main "HOL-Library.Word"
begin

unbundle bit_operations_syntax

section \<open>Machine types\<close>

type_synonym u8 = "8 word"
type_synonym u16 = "16 word"
type_synonym u32 = "32 word"

section \<open>CRCCalculator (utils/CRCCalculator.cpp)\<close>

text \<open>
  The calculator keeps the two bytes of the last checksum in static members.
  A byte buffer together with its \<open>length\<close> argument is modelled as the list of
  the \<open>length\<close> bytes that the loop visits; \<open>length\<close> is a \<open>uint16_t\<close>, so the
  code can only be handed lists of at most 65535 bytes.
\<close>

record CRCCalculator =
  crcLSB :: u8
  crcMSB :: u8

definition POLYNOMIAL :: u16 where
  "POLYNOMIAL = 0x8408"

definition INITIAL_VALUE :: u16 where
  "INITIAL_VALUE = 0xFFFF"

text \<open>The inner loop \<open>for (bit = 0; bit < 8; bit++)\<close>, with the number of rounds left.\<close>

fun crc_bits :: "nat \<Rightarrow> u16 \<Rightarrow> u16" where
  "crc_bits 0 crc = crc"
| "crc_bits (Suc n) crc =
     crc_bits n (if crc AND 0x0001 \<noteq> 0 then drop_bit 1 crc XOR POLYNOMIAL
                 else drop_bit 1 crc)"

text \<open>The outer loop over the data bytes.\<close>

fun crc_bytes :: "u16 \<Rightarrow> u8 list \<Rightarrow> u16" where
  "crc_bytes crc [] = crc"
| "crc_bytes crc (d # ds) = crc_bytes (crc_bits 8 (crc XOR ucast d)) ds"

definition calculate :: "u8 list \<Rightarrow> u16 \<times> CRCCalculator" where
  "calculate data =
     (let crc = NOT (crc_bytes INITIAL_VALUE data) in
      (crc, \<lparr>crcLSB = ucast (drop_bit 8 crc AND 0xFF), crcMSB = ucast (crc AND 0xFF)\<rparr>))"

definition getLSB :: "CRCCalculator \<Rightarrow> u8" where
  "getLSB c = crcLSB c"

definition getMSB :: "CRCCalculator \<Rightarrow> u8" where
  "getMSB c = crcMSB c"

text \<open>
  \<open>verify\<close> recomputes the checksum over all but the last two bytes. The received
  pair is assembled as \<open>(data[length - 1] << 8) | data[length - 2]\<close> in \<open>int\<close>
  (32 bits) and then narrowed to \<open>uint16_t\<close>.
\<close>

definition verify :: "CRCCalculator \<Rightarrow> u8 list \<Rightarrow> bool \<times> CRCCalculator" where
  "verify c data =
     (if length data < 2 then (False, c)
      else
        let (calculatedCRC, c') = calculate (take (length data - 2) data);
            receivedCRC = (ucast (push_bit 8 (ucast (data ! (length data - 1)) :: u32)
                                   OR (ucast (data ! (length data - 2)) :: u32)) :: u16)
        in (calculatedCRC = receivedCRC, c'))"

section \<open>OBIS codes (dlms/OBISCodes.h)\<close>

record OBISCode =
  bytes :: "u8 list"
  name :: string
  unit :: string
  classId :: u8

definition mkOBISCode ::
  "u8 \<Rightarrow> u8 \<Rightarrow> u8 \<Rightarrow> u8 \<Rightarrow> u8 \<Rightarrow> u8 \<Rightarrow> string \<Rightarrow> string \<Rightarrow> u8 \<Rightarrow> OBISCode" where
  "mkOBISCode a b c d e f n u cls =
     \<lparr>bytes = [a, b, c, d, e, f], name = n, unit = u, classId = cls\<rparr>"

section \<open>Frame building (DLMSProtocol::buildOBISFrame)\<close>

text \<open>
  The function fills a 27-byte array, reading the session's frame counter, and
  returns the length 27. The model returns the array, with the counter as an
  argument. The statics of the CRC calculator are written and read back at once.
\<close>

definition buildOBISFrame :: "OBISCode \<Rightarrow> u8 \<Rightarrow> u8 \<Rightarrow> u8 \<Rightarrow> u8 list" where
  "buildOBISFrame obis cls attribute counter =
     (let frame = [0x7E, 0xA0, 0x19, 0x03, 0x41, counter, 0x00, 0x00,
                   0xE6, 0xE6, 0x00, 0xC0, 0x01, 0xC1, 0x00, cls,
                   bytes obis ! 0, bytes obis ! 1, bytes obis ! 2,
                   bytes obis ! 3, bytes obis ! 4, bytes obis ! 5,
                   attribute, 0x00, 0x00, 0x00, 0x7E];
          hcsData = [frame ! 1, frame ! 2, frame ! 3, frame ! 4, frame ! 5];
          hcs = snd (calculate hcsData);
          frame = frame[6 := getMSB hcs];
          frame = frame[7 := getLSB hcs];
          fcsData = map (\<lambda>i. frame ! (i + 1)) [0..<23];
          fcs = snd (calculate fcsData);
          frame = frame[24 := getMSB fcs];
          frame = frame[25 := getLSB fcs]
      in frame)"

section \<open>Configuration (config/config.h, config/pins.h)\<close>

definition HDLC_FLAG :: u8 where
  "HDLC_FLAG = 0x7E"

definition MAX_FRAME_SIZE :: nat where
  "MAX_FRAME_SIZE = 256"

definition MAX_RETRY_COUNT :: nat where
  "MAX_RETRY_COUNT = 3"

definition COMMAND_TIMEOUT :: nat where
  "COMMAND_TIMEOUT = 2000"

section \<open>Receiving a frame (DLMSProtocol::receiveFrame)\<close>

text \<open>
  What a call of \<open>receiveFrame\<close> leaves behind: the returned flag, the receive
  buffer and \<open>receiveLength\<close>. A receiver maps what the serial line holds to such
  a result and to what is left on the line.
\<close>

type_synonym rx_result = "bool \<times> u8 list \<times> nat"

type_synonym 'l receiver = "'l \<Rightarrow> rx_result \<times> 'l"

text \<open>
  The polling loop sees the line as one entry per iteration: \<open>Some b\<close> when
  \<open>HardwareManager::available()\<close> holds and \<open>read()\<close> yields \<open>b\<close>, \<open>None\<close> when
  nothing is available. Every iteration ends with \<open>delay(1)\<close>; the model counts one
  millisecond per iteration, so the loop guard \<open>millis() - startTime < timeout\<close>
  allows \<open>timeout\<close> iterations. Once the list is used up, nothing more arrives.
\<close>

fun receive_loop ::
  "nat \<Rightarrow> u8 option list \<Rightarrow> bool \<Rightarrow> u8 list \<Rightarrow> nat \<Rightarrow> rx_result \<times> u8 option list" where
  "receive_loop 0 line frameStarted buf len = ((False, buf, len), line)"
| "receive_loop (Suc t) [] frameStarted buf len = receive_loop t [] frameStarted buf len"
| "receive_loop (Suc t) (None # line) frameStarted buf len =
     receive_loop t line frameStarted buf len"
| "receive_loop (Suc t) (Some byte # line) frameStarted buf len =
     (let frameStarted = (if byte = HDLC_FLAG then True else frameStarted);
          len = (if byte = HDLC_FLAG then 0 else len)
      in if frameStarted \<and> len < MAX_FRAME_SIZE then
           let buf = buf[len := byte];
               len = len + 1
           in if len > 2 \<and> byte = HDLC_FLAG \<and> buf ! 0 = HDLC_FLAG
              then ((True, buf, len), line)
              else receive_loop t line frameStarted buf len
         else receive_loop t line frameStarted buf len)"

definition receiveFrame :: "nat \<Rightarrow> u8 option list receiver" where
  "receiveFrame timeout line =
     receive_loop timeout line False (replicate MAX_FRAME_SIZE 0) 0"

section \<open>The protocol object (dlms/DLMSProtocol.h)\<close>

text \<open>
  The fields of the class that the modelled functions read or write (\<open>state\<close>,
  \<open>lastError\<close> and \<open>errorCount\<close> are touched by none of them), followed by the two
  ends of the serial port: \<open>serialTx\<close> collects the frames handed to
  \<open>HardwareManager::write\<close>, and \<open>serialRx\<close> is what the line will deliver.
\<close>

record 'l DLMSProtocol =
  hdlcFrameCounter :: u8
  receiveBuffer :: "u8 list"
  receiveLength :: nat
  serialTx :: "u8 list list"
  serialRx :: 'l

definition sendFrame :: "u8 list \<Rightarrow> 'l DLMSProtocol \<Rightarrow> bool \<times> 'l DLMSProtocol" where
  "sendFrame frame st = (True, st\<lparr>serialTx := serialTx st @ [frame]\<rparr>)"

text \<open>
  The session's call of \<open>receiveFrame()\<close>. The functions that read registers are
  modelled for any receiver, so that what is proved of them holds whatever a receive
  delivers; the shipped receiver is \<open>receiveFrame COMMAND_TIMEOUT\<close>. Logging, the
  activity LED and the pacing delays between the steps are not modelled.
\<close>

definition receiveFrame_with ::
  "'l receiver \<Rightarrow> 'l DLMSProtocol \<Rightarrow> bool \<times> 'l DLMSProtocol" where
  "receiveFrame_with rf st =
     (let ((ok, buf, len), line) = rf (serialRx st)
      in (ok, st\<lparr>receiveBuffer := buf, receiveLength := len, serialRx := line\<rparr>))"

definition verifyOBISResponse :: "'l DLMSProtocol \<Rightarrow> bool" where
  "verifyOBISResponse st =
     (if receiveLength st < 15 then False
      else if receiveBuffer st ! 0 \<noteq> 0x7E \<or>
              receiveBuffer st ! 1 \<noteq> 0xA0 \<or>
              receiveBuffer st ! 3 \<noteq> 0x41 \<or>
              receiveBuffer st ! 4 \<noteq> 0x03 \<or>
              receiveBuffer st ! 8 \<noteq> 0xE6 \<or>
              receiveBuffer st ! 9 \<noteq> 0xE7 \<or>
              receiveBuffer st ! 13 \<noteq> 0xC1 \<or>
              receiveBuffer st ! 14 \<noteq> 0x00 then False
      else True)"

definition incrementFrameCounter :: "'l DLMSProtocol \<Rightarrow> 'l DLMSProtocol" where
  "incrementFrameCounter st =
     (if hdlcFrameCounter st < 0xFE
      then st\<lparr>hdlcFrameCounter := hdlcFrameCounter st + 0x22\<rparr>
      else st\<lparr>hdlcFrameCounter := 0x10\<rparr>)"

text \<open>
  The value that \<open>incrementFrameCounter\<close> stores, as a function of the current
  one. It serves to state what a sequence of calls leaves in the counter.
\<close>

definition advanced :: "u8 \<Rightarrow> u8" where
  "advanced c = (if c < 0xFE then c + 0x22 else 0x10)"

section \<open>Data extraction\<close>

text \<open>
  The \<open>float\<close> values of the source are modelled as real numbers: conversions and
  \<open>pow\<close> are exact here, rounding to single precision is not modelled. An
  extraction that returns \<open>false\<close> leaves its output parameter alone and is
  \<open>None\<close>.
\<close>

definition extractValue :: "'l DLMSProtocol \<Rightarrow> real option" where
  "extractValue st =
     (if receiveLength st < 20 then None
      else
        let dataType = receiveBuffer st ! 15 in
        if dataType = 0x06 then
          let temp = push_bit 24 (ucast (receiveBuffer st ! 16) :: u32) OR
                     push_bit 16 (ucast (receiveBuffer st ! 17) :: u32) OR
                     push_bit 8 (ucast (receiveBuffer st ! 18) :: u32) OR
                     (ucast (receiveBuffer st ! 19) :: u32)
          in Some (real (unat temp))
        else if dataType = 0x12 \<or> dataType = 0x10 then
          let temp = (ucast (push_bit 8 (ucast (receiveBuffer st ! 16) :: u32) OR
                             (ucast (receiveBuffer st ! 17) :: u32)) :: u16)
          in Some (real (unat temp))
        else None)"

definition extractString :: "'l DLMSProtocol \<Rightarrow> string option" where
  "extractString st =
     (if receiveLength st < 18 then None
      else
        let dataType = receiveBuffer st ! 15 in
        if dataType = 0x09 \<or> dataType = 0x0A then
          let len = receiveBuffer st ! 16 in
          Some (map (\<lambda>i. char_of (unat (receiveBuffer st ! (17 + i))))
                  (takeWhile (\<lambda>i. 17 + i < receiveLength st) [0..<unat len]))
        else None)"

text \<open>\<open>sprintf\<close> with \<open>%0wu\<close>: decimal digits, padded with zeros to width \<open>w\<close>.\<close>

fun decimal :: "nat \<Rightarrow> string" where
  "decimal n =
     (if n < 10 then [char_of (48 + n)]
      else decimal (n div 10) @ [char_of (48 + n mod 10)])"

declare decimal.simps [simp del]

definition zero_padded :: "nat \<Rightarrow> nat \<Rightarrow> string" where
  "zero_padded w n = replicate (w - length (decimal n)) (CHR ''0'') @ decimal n"

text \<open>
  \<open>extractDateTime\<close> prints into \<open>char buffer[20]\<close>. The text has 19 characters
  when the year has at most four digits; a year of five digits needs 21 bytes with
  the terminator and overruns the buffer, which is a fault of the program from
  which nothing further is modelled.
\<close>

datatype fault = StackBufferOverrun

definition extractDateTime :: "'l DLMSProtocol \<Rightarrow> fault + string option" where
  "extractDateTime st =
     (if receiveLength st < 30 then Inr None
      else
        let year = (ucast (push_bit 8 (ucast (receiveBuffer st ! 17) :: u32) OR
                           (ucast (receiveBuffer st ! 18) :: u32)) :: u16);
            month = receiveBuffer st ! 19;
            day = receiveBuffer st ! 20;
            hour = receiveBuffer st ! 21;
            minute = receiveBuffer st ! 22;
            second = receiveBuffer st ! 23;
            year = (if year = 0xFFFF then 0 else year);
            month = (if month = 0xFF then 1 else month);
            day = (if day = 0xFF then 1 else day);
            hour = (if hour = 0xFF then 0 else hour);
            minute = (if minute = 0xFF then 0 else minute);
            second = (if second = 0xFF then 0 else second);
            text = zero_padded 4 (unat year) @ ''-'' @ zero_padded 2 (unat month) @ ''-'' @
                   zero_padded 2 (unat day) @ '' '' @ zero_padded 2 (unat hour) @ '':'' @
                   zero_padded 2 (unat minute) @ '':'' @ zero_padded 2 (unat second)
        in if length text + 1 > 20 then Inl StackBufferOverrun else Inr (Some text))"

section \<open>Reading one OBIS code (DLMSProtocol::readOBIS, readOBISString)\<close>

text \<open>
  One exchange of a GET step, as the source writes it three times:
  \<open>sendFrame(frame, len)\<close>, then \<open>receiveFrame()\<close>, then \<open>verifyOBISResponse()\<close>,
  each only when the one before returned \<open>true\<close>.
\<close>

definition exchange ::
  "'l receiver \<Rightarrow> u8 list \<Rightarrow> 'l DLMSProtocol \<Rightarrow> bool \<times> 'l DLMSProtocol" where
  "exchange rf frame st =
     (let (sent, st) = sendFrame frame st in
      if \<not> sent then (False, st)
      else
        let (received, st) = receiveFrame_with rf st in
        if \<not> received then (False, st)
        else (verifyOBISResponse st, st))"

text \<open>
  The scaler of a class-3 register, applied to \<open>value\<close> after a verified
  attribute-3 response. \<open>int8_t scaler = ~receiveBuffer[18]\<close> is the complement
  read as a signed byte; \<open>scaler + 1\<close> is computed in \<open>int\<close>.
\<close>

definition applyScaler :: "'l DLMSProtocol \<Rightarrow> real \<Rightarrow> real" where
  "applyScaler st value =
     (if receiveLength st > 18 \<and> receiveBuffer st ! 18 > 127 then
        let scaler = sint (NOT (receiveBuffer st ! 18))
        in value / 10 powi (scaler + 1)
      else if receiveLength st > 18 then
        value * 10 powi (uint (receiveBuffer st ! 18))
      else value)"

text \<open>The block \<open>if (obis.classId == 0x03)\<close>: attribute 3, then the counter.\<close>

definition readScaler ::
  "'l receiver \<Rightarrow> OBISCode \<Rightarrow> real \<Rightarrow> 'l DLMSProtocol \<Rightarrow> real \<times> 'l DLMSProtocol" where
  "readScaler rf obis value st =
     (let frame = buildOBISFrame obis (classId obis) 0x03 (hdlcFrameCounter st);
          (ok, st) = exchange rf frame st;
          value = (if ok then applyScaler st value else value)
      in (value, incrementFrameCounter st))"

text \<open>The block \<open>if (obis.classId == 0x04)\<close>: attribute 5, then the counter.\<close>

definition readCaptureTime ::
  "'l receiver \<Rightarrow> OBISCode \<Rightarrow> string \<Rightarrow> 'l DLMSProtocol
     \<Rightarrow> fault + (string \<times> 'l DLMSProtocol)" where
  "readCaptureTime rf obis timestamp st =
     (let frame = buildOBISFrame obis (classId obis) 0x05 (hdlcFrameCounter st);
          (ok, st) = exchange rf frame st
      in if ok then
           (case extractDateTime st of
              Inl f \<Rightarrow> Inl f
            | Inr None \<Rightarrow> Inr (timestamp, incrementFrameCounter st)
            | Inr (Some text) \<Rightarrow> Inr (text, incrementFrameCounter st))
         else Inr (timestamp, incrementFrameCounter st))"

text \<open>
  \<open>readOBIS\<close> returns its flag together with the two output parameters, which it
  clears on entry.
\<close>

definition readOBIS ::
  "'l receiver \<Rightarrow> OBISCode \<Rightarrow> 'l DLMSProtocol
     \<Rightarrow> fault + ((bool \<times> real \<times> string) \<times> 'l DLMSProtocol)" where
  "readOBIS rf obis st =
     (let value = 0;
          timestamp = [];
          frame = buildOBISFrame obis (classId obis) 0x01 (hdlcFrameCounter st);
          (ok, st) = exchange rf frame st
      in if \<not> ok then Inr ((False, value, timestamp), st)
         else
           let st = incrementFrameCounter st;
               frame = buildOBISFrame obis (classId obis) 0x02 (hdlcFrameCounter st);
               (ok, st) = exchange rf frame st
           in if \<not> ok then Inr ((False, value, timestamp), st)
              else
                (case extractValue st of
                   None \<Rightarrow> Inr ((False, value, timestamp), st)
                 | Some value \<Rightarrow>
                     let st = incrementFrameCounter st;
                         (value, st) = (if classId obis = 0x03 then readScaler rf obis value st
                                        else (value, st))
                     in if classId obis = 0x04 then
                          (case readCaptureTime rf obis timestamp st of
                             Inl f \<Rightarrow> Inl f
                           | Inr (timestamp, st) \<Rightarrow> Inr ((True, value, timestamp), st))
                        else Inr ((True, value, timestamp), st)))"

definition readOBISString ::
  "'l receiver \<Rightarrow> OBISCode \<Rightarrow> 'l DLMSProtocol \<Rightarrow> (bool \<times> string) \<times> 'l DLMSProtocol" where
  "readOBISString rf obis st =
     (let value = [];
          frame = buildOBISFrame obis (classId obis) 0x02 (hdlcFrameCounter st);
          (ok, st) = exchange rf frame st
      in if \<not> ok then ((False, value), st)
         else
           (case extractString st of
              None \<Rightarrow> ((False, value), st)
            | Some value \<Rightarrow> ((True, value), incrementFrameCounter st)))"

text \<open>
  Names for the first three exchanges that \<open>readOBIS\<close> performs from a state
  \<open>st\<close>, each with the flag it yields and the state it leaves: the class step
  (attribute 1), the value step (attribute 2, after the counter was advanced) and,
  for class 3, the scaler step (attribute 3, after the counter was advanced again).
\<close>

abbreviation classStep ::
  "'l receiver \<Rightarrow> OBISCode \<Rightarrow> 'l DLMSProtocol \<Rightarrow> bool \<times> 'l DLMSProtocol" where
  "classStep rf obis st \<equiv>
     exchange rf (buildOBISFrame obis (classId obis) 0x01 (hdlcFrameCounter st)) st"

abbreviation valueStep ::
  "'l receiver \<Rightarrow> OBISCode \<Rightarrow> 'l DLMSProtocol \<Rightarrow> bool \<times> 'l DLMSProtocol" where
  "valueStep rf obis st \<equiv>
     exchange rf
       (buildOBISFrame obis (classId obis) 0x02
          (hdlcFrameCounter (incrementFrameCounter (snd (classStep rf obis st)))))
       (incrementFrameCounter (snd (classStep rf obis st)))"

abbreviation scalerStep ::
  "'l receiver \<Rightarrow> OBISCode \<Rightarrow> 'l DLMSProtocol \<Rightarrow> bool \<times> 'l DLMSProtocol" where
  "scalerStep rf obis st \<equiv>
     exchange rf
       (buildOBISFrame obis (classId obis) 0x03
          (hdlcFrameCounter (incrementFrameCounter (snd (valueStep rf obis st)))))
       (incrementFrameCounter (snd (valueStep rf obis st)))"

text \<open>The attribute byte of a request frame, and those of the frames sent so far.\<close>

abbreviation attributes :: "u8 list list \<Rightarrow> u8 list" where
  "attributes frames \<equiv> map (\<lambda>frame. frame ! 22) frames"

section \<open>The OBIS codes that are read (dlms/OBISCodes.cpp)\<close>

definition METER_SERIAL_NUMBER :: OBISCode where
  "METER_SERIAL_NUMBER = mkOBISCode 0x00 0x00 0x60 0x01 0x00 0xFF ''Serial Number'' [] 0x01"

definition METER_MANUFACTURER :: OBISCode where
  "METER_MANUFACTURER = mkOBISCode 0x00 0x00 0x60 0x01 0x01 0xFF ''Manufacturer'' [] 0x01"

definition KWH_IMPORT :: OBISCode where
  "KWH_IMPORT = mkOBISCode 0x01 0x00 0x01 0x08 0x00 0xFF ''Active Energy Import'' ''kWh'' 0x03"

definition KWH_EXPORT :: OBISCode where
  "KWH_EXPORT = mkOBISCode 0x01 0x00 0x02 0x08 0x00 0xFF ''Active Energy Export'' ''kWh'' 0x03"

definition KWH_IMPORT_RATE :: "OBISCode list" where
  "KWH_IMPORT_RATE =
     [mkOBISCode 0x01 0x00 0x01 0x08 0x01 0xFF ''kWh Import Rate 1'' ''kWh'' 0x03,
      mkOBISCode 0x01 0x00 0x01 0x08 0x02 0xFF ''kWh Import Rate 2'' ''kWh'' 0x03,
      mkOBISCode 0x01 0x00 0x01 0x08 0x03 0xFF ''kWh Import Rate 3'' ''kWh'' 0x03,
      mkOBISCode 0x01 0x00 0x01 0x08 0x04 0xFF ''kWh Import Rate 4'' ''kWh'' 0x03,
      mkOBISCode 0x01 0x00 0x01 0x08 0x05 0xFF ''kWh Import Rate 5'' ''kWh'' 0x03,
      mkOBISCode 0x01 0x00 0x01 0x08 0x06 0xFF ''kWh Import Rate 6'' ''kWh'' 0x03,
      mkOBISCode 0x01 0x00 0x01 0x08 0x07 0xFF ''kWh Import Rate 7'' ''kWh'' 0x03,
      mkOBISCode 0x01 0x00 0x01 0x08 0x08 0xFF ''kWh Import Rate 8'' ''kWh'' 0x03]"

definition KVAH_IMPORT :: OBISCode where
  "KVAH_IMPORT =
     mkOBISCode 0x01 0x00 0x09 0x08 0x00 0xFF ''Apparent Energy Import'' ''kVAh'' 0x03"

definition KVAH_EXPORT :: OBISCode where
  "KVAH_EXPORT =
     mkOBISCode 0x01 0x00 0x10 0x08 0x00 0xFF ''Apparent Energy Export'' ''kVAh'' 0x03"

definition KVAH_IMPORT_RATE :: "OBISCode list" where
  "KVAH_IMPORT_RATE =
     [mkOBISCode 0x01 0x00 0x09 0x08 0x01 0xFF ''kVAh Import Rate 1'' ''kVAh'' 0x03,
      mkOBISCode 0x01 0x00 0x09 0x08 0x02 0xFF ''kVAh Import Rate 2'' ''kVAh'' 0x03,
      mkOBISCode 0x01 0x00 0x09 0x08 0x03 0xFF ''kVAh Import Rate 3'' ''kVAh'' 0x03,
      mkOBISCode 0x01 0x00 0x09 0x08 0x04 0xFF ''kVAh Import Rate 4'' ''kVAh'' 0x03,
      mkOBISCode 0x01 0x00 0x09 0x08 0x05 0xFF ''kVAh Import Rate 5'' ''kVAh'' 0x03,
      mkOBISCode 0x01 0x00 0x09 0x08 0x06 0xFF ''kVAh Import Rate 6'' ''kVAh'' 0x03,
      mkOBISCode 0x01 0x00 0x09 0x08 0x07 0xFF ''kVAh Import Rate 7'' ''kVAh'' 0x03,
      mkOBISCode 0x01 0x00 0x09 0x08 0x08 0xFF ''kVAh Import Rate 8'' ''kVAh'' 0x03]"

definition KVARH_LAG :: OBISCode where
  "KVARH_LAG = mkOBISCode 0x01 0x00 0x05 0x08 0x00 0xFF ''Reactive Energy Lag'' ''kVArh'' 0x03"

definition KVARH_LEAD :: OBISCode where
  "KVARH_LEAD = mkOBISCode 0x01 0x00 0x08 0x08 0x00 0xFF ''Reactive Energy Lead'' ''kVArh'' 0x03"

definition MD_KW_IMPORT :: OBISCode where
  "MD_KW_IMPORT = mkOBISCode 0x01 0x00 0x01 0x06 0x00 0xFF ''MD Active Import'' ''kW'' 0x04"

definition MD_KVA_IMPORT :: OBISCode where
  "MD_KVA_IMPORT = mkOBISCode 0x01 0x00 0x09 0x06 0x00 0xFF ''MD Apparent Import'' ''kVA'' 0x04"

definition VOLTAGE_R :: OBISCode where
  "VOLTAGE_R = mkOBISCode 0x01 0x00 0x20 0x07 0x00 0xFF ''Voltage Phase R'' ''V'' 0x03"

definition VOLTAGE_Y :: OBISCode where
  "VOLTAGE_Y = mkOBISCode 0x01 0x00 0x34 0x07 0x00 0xFF ''Voltage Phase Y'' ''V'' 0x03"

definition VOLTAGE_B :: OBISCode where
  "VOLTAGE_B = mkOBISCode 0x01 0x00 0x48 0x07 0x00 0xFF ''Voltage Phase B'' ''V'' 0x03"

definition CURRENT_R :: OBISCode where
  "CURRENT_R = mkOBISCode 0x01 0x00 0x1F 0x07 0x00 0xFF ''Current Phase R'' ''A'' 0x03"

definition CURRENT_Y :: OBISCode where
  "CURRENT_Y = mkOBISCode 0x01 0x00 0x33 0x07 0x00 0xFF ''Current Phase Y'' ''A'' 0x03"

definition CURRENT_B :: OBISCode where
  "CURRENT_B = mkOBISCode 0x01 0x00 0x47 0x07 0x00 0xFF ''Current Phase B'' ''A'' 0x03"

definition POWER_FACTOR :: OBISCode where
  "POWER_FACTOR = mkOBISCode 0x01 0x00 0x0D 0x07 0x00 0xFF ''Power Factor'' [] 0x03"

definition FREQUENCY :: OBISCode where
  "FREQUENCY = mkOBISCode 0x01 0x00 0x0E 0x07 0x00 0xFF ''Frequency'' ''Hz'' 0x03"

section \<open>Meter data (data/MeterData.h, data/MeterData.cpp)\<close>

record MaximumDemand =
  md_value :: real
  md_timestamp :: string

record TODData =
  kwh :: real
  kvah :: real
  mdKW :: real
  mdKVA :: real
  kwhTimestamp :: string
  kvahTimestamp :: string
  mdKWTimestamp :: string
  mdKVATimestamp :: string

record MeterData =
  serialNumber :: string
  manufacturer :: string
  meterType :: string
  multiplicationFactor :: real
  kwhImport :: real
  kvahImport :: real
  kvarhLag :: real
  kvarhLead :: real
  kwhExport :: real
  kvahExport :: real
  mdKWImport :: MaximumDemand
  mdKVAImport :: MaximumDemand
  mdKWExport :: MaximumDemand
  mdKVAExport :: MaximumDemand
  voltageR :: real
  voltageY :: real
  voltageB :: real
  currentR :: real
  currentY :: real
  currentB :: real
  currentNeutral :: real
  powerFactor :: real
  frequency :: real
  todZones :: "TODData list"
  lastReadTime :: nat
  lastReadTimestamp :: string
  dataValid :: bool
  errorCount :: u8

definition MaximumDemand_clear :: MaximumDemand where
  "MaximumDemand_clear = \<lparr>md_value = 0, md_timestamp = []\<rparr>"

definition TODData_clear :: TODData where
  "TODData_clear =
     \<lparr>kwh = 0, kvah = 0, mdKW = 0, mdKVA = 0, kwhTimestamp = [], kvahTimestamp = [],
      mdKWTimestamp = [], mdKVATimestamp = []\<rparr>"

text \<open>
  \<open>MeterData::clear\<close> assigns every field, and the constructor only calls it.
\<close>

definition MeterData_new :: MeterData where
  "MeterData_new =
     \<lparr>serialNumber = [], manufacturer = [], meterType = [], multiplicationFactor = 1,
      kwhImport = 0, kvahImport = 0, kvarhLag = 0, kvarhLead = 0,
      kwhExport = 0, kvahExport = 0,
      mdKWImport = MaximumDemand_clear, mdKVAImport = MaximumDemand_clear,
      mdKWExport = MaximumDemand_clear, mdKVAExport = MaximumDemand_clear,
      voltageR = 0, voltageY = 0, voltageB = 0,
      currentR = 0, currentY = 0, currentB = 0, currentNeutral = 0,
      powerFactor = 0, frequency = 0,
      todZones = replicate 8 TODData_clear,
      lastReadTime = 0, lastReadTimestamp = [], dataValid = False, errorCount = 0\<rparr>"

definition clear :: "MeterData \<Rightarrow> MeterData" where
  "clear data = MeterData_new"

definition isValid :: "MeterData \<Rightarrow> bool" where
  "isValid data \<longleftrightarrow>
     dataValid data \<and> serialNumber data \<noteq> [] \<and> (kwhImport data > 0 \<or> kvahImport data > 0)"

section \<open>Reading the whole meter (DLMSProtocol::readMeterData)\<close>

text \<open>
  A call \<open>readOBIS(code, data.x, data.y)\<close> writes its two output parameters into
  fields of the record; the model passes the assignment as the second component
  of \<open>reg\<close>. The flag that \<open>readOBIS\<close> returns is dropped, as in the source.
\<close>

definition readInto ::
  "'l receiver \<Rightarrow> OBISCode \<times> (real \<Rightarrow> string \<Rightarrow> MeterData \<Rightarrow> MeterData)
     \<Rightarrow> fault + (MeterData \<times> 'l DLMSProtocol) \<Rightarrow> fault + (MeterData \<times> 'l DLMSProtocol)" where
  "readInto rf reg r =
     (case r of
        Inl f \<Rightarrow> Inl f
      | Inr (data, st) \<Rightarrow>
          (case readOBIS rf (fst reg) st of
             Inl f \<Rightarrow> Inl f
           | Inr ((ok, val, timestamp), st) \<Rightarrow> Inr (snd reg val timestamp data, st)))"

text \<open>
  The calls of \<open>readOBIS\<close> in the order of the source: energy values, maximum
  demand, instantaneous values, and the loop over the first four TOD zones.
\<close>

definition registers :: "(OBISCode \<times> (real \<Rightarrow> string \<Rightarrow> MeterData \<Rightarrow> MeterData)) list" where
  "registers =
     [(KWH_IMPORT, \<lambda>v dummy d. d\<lparr>kwhImport := v\<rparr>),
      (KVAH_IMPORT, \<lambda>v dummy d. d\<lparr>kvahImport := v\<rparr>),
      (KWH_EXPORT, \<lambda>v dummy d. d\<lparr>kwhExport := v\<rparr>),
      (KVAH_EXPORT, \<lambda>v dummy d. d\<lparr>kvahExport := v\<rparr>),
      (KVARH_LAG, \<lambda>v dummy d. d\<lparr>kvarhLag := v\<rparr>),
      (KVARH_LEAD, \<lambda>v dummy d. d\<lparr>kvarhLead := v\<rparr>),
      (MD_KW_IMPORT, \<lambda>v t d. d\<lparr>mdKWImport := \<lparr>md_value = v, md_timestamp = t\<rparr>\<rparr>),
      (MD_KVA_IMPORT, \<lambda>v t d. d\<lparr>mdKVAImport := \<lparr>md_value = v, md_timestamp = t\<rparr>\<rparr>),
      (VOLTAGE_R, \<lambda>v dummy d. d\<lparr>voltageR := v\<rparr>),
      (VOLTAGE_Y, \<lambda>v dummy d. d\<lparr>voltageY := v\<rparr>),
      (VOLTAGE_B, \<lambda>v dummy d. d\<lparr>voltageB := v\<rparr>),
      (CURRENT_R, \<lambda>v dummy d. d\<lparr>currentR := v\<rparr>),
      (CURRENT_Y, \<lambda>v dummy d. d\<lparr>currentY := v\<rparr>),
      (CURRENT_B, \<lambda>v dummy d. d\<lparr>currentB := v\<rparr>),
      (POWER_FACTOR, \<lambda>v dummy d. d\<lparr>powerFactor := v\<rparr>),
      (FREQUENCY, \<lambda>v dummy d. d\<lparr>frequency := v\<rparr>)]
     @ concat (map (\<lambda>i.
         [(KWH_IMPORT_RATE ! i,
           \<lambda>v t d. d\<lparr>todZones :=
             (todZones d)[i := (todZones d ! i)\<lparr>kwh := v, kwhTimestamp := t\<rparr>]\<rparr>),
          (KVAH_IMPORT_RATE ! i,
           \<lambda>v t d. d\<lparr>todZones :=
             (todZones d)[i := (todZones d ! i)\<lparr>kvah := v, kvahTimestamp := t\<rparr>]\<rparr>)])
         [0..<4])"

text \<open>
  \<open>readMeterData\<close> returns \<open>success\<close> and fills \<open>data\<close>; \<open>now\<close> is the value of
  \<open>millis()\<close> at the end of the reading.
\<close>

definition readMeterData ::
  "'l receiver \<Rightarrow> nat \<Rightarrow> MeterData \<Rightarrow> 'l DLMSProtocol
     \<Rightarrow> fault + ((bool \<times> MeterData) \<times> 'l DLMSProtocol)" where
  "readMeterData rf now data st =
     (let data = clear data;
          success = True;
          ((ok, text), st) = readOBISString rf METER_SERIAL_NUMBER st;
          data = data\<lparr>serialNumber := text\<rparr>;
          success = (if \<not> ok then False else success);
          ((ok, text), st) = readOBISString rf METER_MANUFACTURER st;
          data = data\<lparr>manufacturer := text\<rparr>;
          success = (if \<not> ok then False else success)
      in case foldl (\<lambda>r reg. readInto rf reg r) (Inr (data, st)) registers of
           Inl f \<Rightarrow> Inl f
         | Inr (data, st) \<Rightarrow>
             Inr ((success,
                   data\<lparr>dataValid := True, lastReadTime := now,
                        lastReadTimestamp := ''2025-10-02 12:00:00''\<rparr>), st))"

section \<open>An encoding named by the specification\<close>

text \<open>
  The specification's table of data types gives tag \<open>0x10\<close> as \<open>long\<close>, a signed
  16-bit integer in big-endian order. This is the meter's side of the exchange,
  written from the specification's words: the two payload bytes of a \<open>long\<close>.
\<close>

definition spec_encode_long :: "int \<Rightarrow> u8 list" where
  "spec_encode_long v = (let w = (word_of_int v :: u16) in [ucast (drop_bit 8 w), ucast w])"

section \<open>The constructor and example inputs\<close>

text \<open>The object as its constructor leaves it, on a given line.\<close>

definition DLMSProtocol_new :: "'l \<Rightarrow> 'l DLMSProtocol" where
  "DLMSProtocol_new line =
     \<lparr>hdlcFrameCounter = 0x10, receiveBuffer = replicate MAX_FRAME_SIZE 0,
      receiveLength = 0, serialTx = [], serialRx = line\<rparr>"

text \<open>
  The object with the given bytes at the start of its receive buffer and
  \<open>receiveLength\<close> set to their number: an input for the functions that decode the
  buffer.
\<close>

definition holding :: "u8 list \<Rightarrow> u8 option list DLMSProtocol" where
  "holding bs =
     (DLMSProtocol_new [])\<lparr>receiveBuffer := bs @ replicate (MAX_FRAME_SIZE - length bs) 0,
                          receiveLength := length bs\<rparr>"

text \<open>
  Answers of a meter as byte sequences (HCS and FCS are not inspected by the code
  and are left zero): the logical name of an object, the value 5500 as
  \<open>long-unsigned\<close>, the capture time of the specification's third scenario, and the
  serial number \<open>M2025001\<close>.
\<close>

definition response_logical_name :: "u8 list" where
  "response_logical_name =
     [0x7E, 0xA0, 0x18, 0x41, 0x03, 0x52, 0x00, 0x00, 0xE6, 0xE7, 0x00, 0xC4, 0x01, 0xC1,
      0x00, 0x09, 0x06, 0x01, 0x00, 0x01, 0x08, 0x00, 0xFF, 0x00, 0x00, 0x7E]"

definition response_value_5500 :: "u8 list" where
  "response_value_5500 =
     [0x7E, 0xA0, 0x15, 0x41, 0x03, 0x52, 0x00, 0x00, 0xE6, 0xE7, 0x00, 0xC4, 0x01, 0xC1,
      0x00, 0x12, 0x15, 0x7C, 0x00, 0x00, 0x00, 0x00, 0x7E]"

definition response_capture_time :: "u8 list" where
  "response_capture_time =
     [0x7E, 0xA0, 0x1E, 0x41, 0x03, 0x52, 0x00, 0x00, 0xE6, 0xE7, 0x00, 0xC4, 0x01, 0xC1,
      0x00, 0x09, 0x0C, 0x07, 0xE9, 0x0A, 0x02, 0x03, 0x0C, 0x1E, 0x00, 0x00, 0x50, 0x78,
      0x00, 0x00, 0x00, 0x7E]"

definition response_serial :: "u8 list" where
  "response_serial =
     [0x7E, 0xA0, 0x1A, 0x41, 0x03, 0x52, 0x00, 0x00, 0xE6, 0xE7, 0x00, 0xC4, 0x01, 0xC1,
      0x00, 0x09, 0x08, 0x4D, 0x32, 0x30, 0x32, 0x35, 0x30, 0x30, 0x31, 0x00, 0x00, 0x7E]"

text \<open>
  Runs of the program, with the receiver it ships: the read of the maximum demand
  (class 4) on a line that carries the meter's answers to the class and the value
  request, and a read cycle on a line that carries the answer with the serial
  number. One byte arrives in every iteration of the polling loop.
\<close>

definition demand_read ::
  "fault + ((bool \<times> real \<times> string) \<times> u8 option list DLMSProtocol)" where
  "demand_read =
     readOBIS (receiveFrame COMMAND_TIMEOUT) MD_KW_IMPORT
       (DLMSProtocol_new (map Some (response_logical_name @ response_value_5500)))"

definition serial_cycle ::
  "fault + ((bool \<times> MeterData) \<times> u8 option list DLMSProtocol)" where
  "serial_cycle =
     readMeterData (receiveFrame COMMAND_TIMEOUT) 0 MeterData_new
       (DLMSProtocol_new (map Some response_serial))"

section \<open>Properties of the receive loop\<close>

lemma receive_loop_never_succeeds:
  "\<not> fst (fst (receive_loop t line frameStarted buf len))"
proof (induction t arbitrary: line frameStarted buf len)
  case 0
  show ?case by simp
next
  case (Suc t)
  show ?case
  proof (cases line)
    case Nil
    then show ?thesis using Suc by simp
  next
    case (Cons x rest)
    show ?thesis
    proof (cases x)
      case None
      then show ?thesis using Cons Suc by simp
    next
      case (Some byte)
      show ?thesis
        unfolding Cons Some using Suc by (simp add: Let_def)
    qed
  qed
qed

text \<open>
  C1. The claim is that \<open>receiveFrame\<close> returns successfully once the closing flag
  of a complete frame has arrived. In the code every flag byte resets
  \<open>receiveLength\<close> to 0 before the byte is stored, so at a flag the length is 1 and
  the end-of-frame test \<open>receiveLength > 2\<close> never holds: for every timeout and every
  line, \<open>receiveFrame\<close> returns \<open>false\<close>.
\<close>

theorem receiveFrame_never_reports_frame:
  "fst (fst (receiveFrame timeout line)) = False"
  by (simp add: receiveFrame_def receive_loop_never_succeeds)

text \<open>
  A complete UA frame on the line, one byte per iteration, well before the
  deadline: the call still ends in the timeout branch.
\<close>

lemma receiveFrame_complete_frame_times_out:
  "fst (fst (receiveFrame COMMAND_TIMEOUT
      (map Some [0x7E, 0xA0, 0x07, 0x41, 0x03, 0x73, 0xC3, 0x7D, 0x7E]))) = False"
  by (simp add: receiveFrame_def receive_loop_never_succeeds)

section \<open>Properties of the example inputs\<close>

lemma receiveLength_holding [simp]: "receiveLength (holding bs) = length bs"
  by (simp add: holding_def)

lemma receiveBuffer_holding [simp]:
  "i < length bs \<Longrightarrow> receiveBuffer (holding bs) ! i = bs ! i"
  by (simp add: holding_def nth_append)

section \<open>Properties of the scaler\<close>

lemma sint_NOT_u8: "sint (NOT b) = - sint b - 1" for b :: u8
proof -
  have "- 128 \<le> sint b" "sint b < 128"
    using sint_ge [of b] sint_lt [of b] by simp_all
  then have "signed_take_bit 8 (NOT (sint b)) = NOT (sint b)"
    by (intro signed_take_bit_int_eq_self) (simp_all add: not_int_def)
  then show ?thesis
    by (simp add: signed_not_eq not_int_def)
qed

lemma sint_small_u8: "b \<le> 127 \<Longrightarrow> sint b = uint b" for b :: u8
proof -
  assume "b \<le> 127"
  then have "uint b \<le> 127"
    by (simp add: word_le_def)
  moreover have "- 128 \<le> uint b"
    by (rule order_trans [of _ 0]) simp_all
  ultimately have "signed_take_bit 7 (uint b) = uint b"
    by (intro signed_take_bit_int_eq_self) simp_all
  then show ?thesis
    by (simp add: sint_uint)
qed

lemma sint_large_u8: "127 < b \<Longrightarrow> sint b = uint b - 256" for b :: u8
proof -
  assume "127 < b"
  then have "127 < uint b"
    by (simp add: word_less_def)
  moreover have "uint b < 256"
    using uint_bounded [of b] by simp
  ultimately have "signed_take_bit 7 (uint b - 256) = uint b - 256"
    by (intro signed_take_bit_int_eq_self) simp_all
  moreover have "signed_take_bit 7 (uint b - 256) = signed_take_bit 7 (uint b)"
    by (rule signed_take_bit_eq_iff_take_bit_eq [THEN iffD2]) (simp add: take_bit_eq_mod)
  ultimately show ?thesis
    by (simp add: sint_uint)
qed

lemma applyScaler_signed:
  assumes "receiveLength st > 18"
  shows "applyScaler st v = v * 10 powi (sint (receiveBuffer st ! 18))"
proof (cases "receiveBuffer st ! 18 > 127")
  case True
  have "sint (NOT (receiveBuffer st ! 18)) + 1 = - sint (receiveBuffer st ! 18)"
    by (simp add: sint_NOT_u8)
  then show ?thesis
    using assms True by (simp add: applyScaler_def Let_def power_int_minus divide_inverse)
next
  case False
  then have "receiveBuffer st ! 18 \<le> 127"
    by simp
  then have "sint (receiveBuffer st ! 18) = uint (receiveBuffer st ! 18)"
    by (rule sint_small_u8)
  then show ?thesis
    using assms False by (simp add: applyScaler_def)
qed

lemma power_int_below_256:
  "n < 256 \<Longrightarrow> (10::real) powi (int n - 256) = inverse (10 ^ (256 - n))" for n :: nat
proof -
  assume "n < 256"
  then have "nat (256 - int n) = 256 - n" "int n - 256 < 0"
    by arith+
  then show ?thesis
    by (simp add: power_int_def power_one_over inverse_eq_divide)
qed

text \<open>
  C4. With \<open>receiveLength > 18\<close>, the value is multiplied by \<open>10^s\<close> where \<open>s\<close> is the
  scaler byte at offset 18 read as a signed 8-bit number: for a byte \<open>b \<le> 127\<close>
  that is \<open>10^b\<close>, and for \<open>b > 127\<close> it is \<open>s = b - 256\<close> and the complement
  formulation of the code divides by \<open>10^(256 - b)\<close>, in exact real arithmetic.
\<close>

theorem applyScaler_twos_complement:
  assumes "receiveLength st > 18"
  shows "applyScaler st v = v * 10 powi (sint (receiveBuffer st ! 18))
    \<and> (receiveBuffer st ! 18 \<le> 127 \<longrightarrow>
         applyScaler st v = v * 10 ^ unat (receiveBuffer st ! 18))
    \<and> (receiveBuffer st ! 18 > 127 \<longrightarrow>
         sint (receiveBuffer st ! 18) = int (unat (receiveBuffer st ! 18)) - 256
         \<and> applyScaler st v = v / 10 ^ (256 - unat (receiveBuffer st ! 18)))"
proof -
  let ?b = "receiveBuffer st ! 18"
  have main: "applyScaler st v = v * 10 powi (sint ?b)"
    using assms by (rule applyScaler_signed)
  have small: "applyScaler st v = v * 10 ^ unat ?b" if "?b \<le> 127"
    using that by (simp add: main sint_small_u8 power_int_def)
  have large: "sint ?b = int (unat ?b) - 256 \<and> applyScaler st v = v / 10 ^ (256 - unat ?b)"
    if "?b > 127"
  proof -
    have s: "sint ?b = int (unat ?b) - 256"
      using that by (simp add: sint_large_u8)
    have "unat ?b < 256"
      using unsigned_less [of ?b, where ?'a = nat] by simp
    then have "(10::real) powi (int (unat ?b) - 256) = inverse (10 ^ (256 - unat ?b))"
      by (rule power_int_below_256)
    then show ?thesis
      using s by (simp only: main divide_inverse simp_thms)
  qed
  show ?thesis
    using main small large by blast
qed

theorem applyScaler_twos_complement_witness:
  "receiveLength (holding [0x7E, 0xA0, 0x14, 0x41, 0x03, 0x52, 0x00, 0x00, 0xE6, 0xE7,
       0x00, 0xC4, 0x01, 0xC1, 0x00, 0x02, 0x02, 0x0F, 0xFE, 0x16, 0x1E, 0x00, 0x00, 0x7E]) > 18
   \<and> applyScaler (holding [0x7E, 0xA0, 0x14, 0x41, 0x03, 0x52, 0x00, 0x00, 0xE6, 0xE7,
       0x00, 0xC4, 0x01, 0xC1, 0x00, 0x02, 0x02, 0x0F, 0xFE, 0x16, 0x1E, 0x00, 0x00, 0x7E])
       20000 = 200"
  using applyScaler_twos_complement [of "holding [0x7E, 0xA0, 0x14, 0x41, 0x03, 0x52, 0x00,
       0x00, 0xE6, 0xE7, 0x00, 0xC4, 0x01, 0xC1, 0x00, 0x02, 0x02, 0x0F, 0xFE, 0x16, 0x1E,
       0x00, 0x00, 0x7E]" 20000]
  by simp

section \<open>Properties of the checksum and of the request frame\<close>

lemma and_FF_take_bit: "(x :: u16) AND 0xFF = take_bit 8 x"
proof -
  have "(0xFF :: u16) = mask 8"
    by (simp add: mask_eq_exp_minus_1)
  then show ?thesis
    by (simp add: take_bit_eq_mask)
qed

lemma received_pair_is_crc:
  "(ucast (push_bit 8 (ucast (ucast (drop_bit 8 crc AND 0xFF :: u16) :: u8) :: u32)
           OR (ucast (ucast (crc AND 0xFF :: u16) :: u8) :: u32)) :: u16) = crc"
  unfolding and_FF_take_bit
  by (rule bit_word_eqI) (auto simp add: bit_simps)

lemma verify_calculate:
  "fst (verify c (data @ [getMSB (snd (calculate data)), getLSB (snd (calculate data))]))"
  by (simp add: verify_def calculate_def getMSB_def getLSB_def Let_def nth_append
      received_pair_is_crc)

lemma buildOBISFrame_shape:
  "\<exists>body. length body = 23 \<and> buildOBISFrame obis cls attribute counter =
     0x7E # body @ [getMSB (snd (calculate body)), getLSB (snd (calculate body)), 0x7E]"
  by (simp add: buildOBISFrame_def Let_def upt_conv_Cons numeral_nat nth_Cons' del: upt_Suc)

lemma low_byte_unat: "unat (ucast (crc AND 0xFF :: u16) :: u8) = unat crc mod 256"
  unfolding and_FF_take_bit
  by (simp add: unsigned_ucast_eq take_bit_eq_mod unat_mod_distrib)

lemma high_byte_unat: "unat (ucast (drop_bit 8 crc AND 0xFF :: u16) :: u8) = unat crc div 256"
proof -
  have "unat crc < 65536"
    using unsigned_less [of crc, where ?'a = nat] by simp
  then have "unat crc div 256 < 256"
    by simp
  then show ?thesis
    unfolding and_FF_take_bit
    by (simp add: unsigned_ucast_eq take_bit_eq_mod drop_bit_eq_div unat_mod_distrib
        unat_div_distrib)
qed

text \<open>
  C3. Every request frame built by \<open>buildOBISFrame\<close>, for any OBIS code, class id,
  attribute and frame counter, passes \<open>CRCCalculator::verify\<close> on its bytes 1..25
  (format field through the trailing FCS pair).
\<close>

theorem buildOBISFrame_verifies:
  "fst (verify c (take 25 (drop 1 (buildOBISFrame obis cls attribute counter))))"
proof -
  obtain body where len: "length body = 23"
    and shape: "buildOBISFrame obis cls attribute counter =
      0x7E # body @ [getMSB (snd (calculate body)), getLSB (snd (calculate body)), 0x7E]"
    using buildOBISFrame_shape by blast
  show ?thesis
    using len by (simp add: shape verify_calculate)
qed

text \<open>
  C10. After \<open>calculate\<close> returns \<open>crc\<close>, \<open>getMSB\<close> yields the low-order byte of
  \<open>crc\<close> and \<open>getLSB\<close> the high-order byte, so the pair \<open>getMSB, getLSB\<close> is the
  checksum in little-endian order, which is the trailing pair that \<open>verify\<close> accepts.
\<close>

theorem getMSB_getLSB_little_endian:
  "unat (getMSB (snd (calculate data))) = unat (fst (calculate data)) mod 256
   \<and> unat (getLSB (snd (calculate data))) = unat (fst (calculate data)) div 256
   \<and> unat (fst (calculate data))
       = unat (getMSB (snd (calculate data))) + 256 * unat (getLSB (snd (calculate data)))
   \<and> fst (verify c (data @ [getMSB (snd (calculate data)), getLSB (snd (calculate data))]))"
proof -
  let ?crc = "NOT (crc_bytes INITIAL_VALUE data)"
  have lo: "unat (getMSB (snd (calculate data))) = unat (fst (calculate data)) mod 256"
    by (simp add: calculate_def Let_def getMSB_def low_byte_unat)
  have hi: "unat (getLSB (snd (calculate data))) = unat (fst (calculate data)) div 256"
    by (simp add: calculate_def Let_def getLSB_def high_byte_unat)
  have le: "unat (fst (calculate data))
       = unat (getMSB (snd (calculate data))) + 256 * unat (getLSB (snd (calculate data)))"
    unfolding lo hi by simp
  show ?thesis
    using lo hi le verify_calculate by blast
qed

section \<open>Properties of the value decoder\<close>

lemma be16_reassemble:
  "(ucast (push_bit 8 (ucast (ucast (drop_bit 8 w) :: u8) :: u32) OR
           (ucast (ucast w :: u8) :: u32)) :: u16) = w" for w :: u16
  by (rule bit_word_eqI) (auto simp add: bit_simps)

lemma unat_u8_less: "unat b < 256" for b :: u8
  using unsigned_less [of b, where ?'a = nat] by simp

lemma be16_value:
  "unat (ucast (push_bit 8 (ucast hi :: u32) OR (ucast lo :: u32)) :: u16)
     = 256 * unat hi + unat lo" for hi lo :: u8
proof -
  have narrow: "(ucast (push_bit 8 (ucast hi :: u32) OR (ucast lo :: u32)) :: u16)
      = push_bit 8 (ucast hi :: u16) OR ucast lo"
    by (rule bit_word_eqI) (auto simp add: bit_simps)
  have "push_bit 8 (ucast hi :: u16) AND ucast lo = 0"
    by (rule bit_word_eqI) (auto simp add: bit_simps dest: bit_imp_le_length)
  then have plus: "push_bit 8 (ucast hi :: u16) OR ucast lo = push_bit 8 (ucast hi) + ucast lo"
    by (simp add: disjunctive_add_eq_or)
  have h: "unat (ucast hi :: u16) = unat hi" and l: "unat (ucast lo :: u16) = unat lo"
    using unat_u8_less [of hi] unat_u8_less [of lo]
    by (simp_all add: unsigned_ucast_eq take_bit_nat_eq_self)
  have "unat (push_bit 8 (ucast hi :: u16) + ucast lo) = 256 * unat hi + unat lo"
    using unat_u8_less [of hi] unat_u8_less [of lo]
    by (simp add: unat_word_ariths push_bit_eq_mult h l)
  then show ?thesis
    by (simp only: narrow plus)
qed

lemma unat_word_of_int_16:
  assumes "- 32768 \<le> v" "v \<le> 32767"
  shows "int (unat (word_of_int v :: u16)) = (if v < 0 then v + 65536 else v)"
proof -
  have "int (unat (word_of_int v :: u16)) = v mod 65536"
    by (simp add: unsigned_of_int take_bit_eq_mod)
  also have "\<dots> = (if v < 0 then v + 65536 else v)"
  proof (cases "v < 0")
    case True
    then have "(v + 65536) mod 65536 = v + 65536"
      using assms by (intro mod_pos_pos_trivial) simp_all
    then show ?thesis using True by simp
  next
    case False
    then show ?thesis using assms by simp
  qed
  finally show ?thesis .
qed

lemma extractValue_long:
  assumes "receiveLength st \<ge> 20" "receiveBuffer st ! 15 = 0x10"
  shows "extractValue st = Some (real (256 * unat (receiveBuffer st ! 16) + unat (receiveBuffer st ! 17)))"
proof -
  have "extractValue st = Some (real (unat (ucast (push_bit 8 (ucast (receiveBuffer st ! 16) :: u32) OR
                             (ucast (receiveBuffer st ! 17) :: u32)) :: u16)))"
    using assms by (simp add: extractValue_def Let_def)
  then show ?thesis
    by (simp only: be16_value)
qed

lemma spec_encode_long_minus_2: "spec_encode_long (- 2) = [0xFF, 0xFE]"
  by (simp add: spec_encode_long_def Let_def)

lemma spec_encode_long_minus_1: "spec_encode_long (- 1) = [0xFF, 0xFF]"
  by code_simp

text \<open>
  C8, as the code has it. For a response of at least 20 bytes with data tag \<open>0x10\<close>
  the decoder returns the unsigned 16-bit big-endian number formed by the two
  payload bytes (the source handles \<open>0x10\<close> together with \<open>0x12\<close>, as "16-bit
  unsigned"). Decoding the encoding of \<open>v\<close> therefore yields \<open>v\<close> for
  \<open>0 \<le> v \<le> 32767\<close> and \<open>v + 65536\<close> for \<open>- 32768 \<le> v < 0\<close>.
\<close>

theorem extractValue_long_unsigned:
  assumes "receiveLength st \<ge> 20" and "receiveBuffer st ! 15 = 0x10"
    and "[receiveBuffer st ! 16, receiveBuffer st ! 17] = spec_encode_long v"
    and "- 32768 \<le> v" and "v \<le> 32767"
  shows "extractValue st
           = Some (real (256 * unat (receiveBuffer st ! 16) + unat (receiveBuffer st ! 17)))
     \<and> extractValue st = Some (real_of_int (if v < 0 then v + 65536 else v))"
proof -
  let ?w = "word_of_int v :: u16"
  have hi: "receiveBuffer st ! 16 = ucast (drop_bit 8 ?w)"
    and lo: "receiveBuffer st ! 17 = ucast ?w"
    using assms(3) by (simp_all add: spec_encode_long_def Let_def)
  have raw: "extractValue st
      = Some (real (unat (ucast (push_bit 8 (ucast (receiveBuffer st ! 16) :: u32) OR
                                 (ucast (receiveBuffer st ! 17) :: u32)) :: u16)))"
    using assms(1,2) by (simp add: extractValue_def Let_def)
  then have "extractValue st = Some (real (unat ?w))"
    by (simp only: hi lo be16_reassemble)
  moreover have "real (unat ?w) = real_of_int (int (unat ?w))"
    by (simp only: of_int_of_nat_eq)
  ultimately have signed: "extractValue st = Some (real_of_int (if v < 0 then v + 65536 else v))"
    by (simp only: unat_word_of_int_16 [OF assms(4,5)])
  from raw have "extractValue st
      = Some (real (256 * unat (receiveBuffer st ! 16) + unat (receiveBuffer st ! 17)))"
    by (simp only: be16_value)
  with signed show ?thesis
    by blast
qed

theorem extractValue_long_unsigned_witness:
  "extractValue (holding [0x7E, 0xA0, 0x12, 0x41, 0x03, 0x52, 0x00, 0x00, 0xE6, 0xE7, 0x00,
      0xC4, 0x01, 0xC1, 0x00, 0x10, 0xFF, 0xFE, 0x00, 0x00, 0x7E]) = Some 65534"
  using extractValue_long_unsigned [of "holding [0x7E, 0xA0, 0x12, 0x41, 0x03, 0x52, 0x00,
      0x00, 0xE6, 0xE7, 0x00, 0xC4, 0x01, 0xC1, 0x00, 0x10, 0xFF, 0xFE, 0x00, 0x00, 0x7E]" "- 2"]
  by (simp add: spec_encode_long_minus_2)

text \<open>
  The claim as stated fails: the encoding of \<open>- 1\<close> is \<open>FF FF\<close>, and the decoder
  returns 65535.
\<close>

theorem extractValue_long_counterexample:
  "spec_encode_long (- 1) = [0xFF, 0xFF]
   \<and> extractValue (holding ([0x7E, 0xA0, 0x12, 0x41, 0x03, 0x52, 0x00, 0x00, 0xE6, 0xE7, 0x00,
      0xC4, 0x01, 0xC1, 0x00, 0x10] @ spec_encode_long (- 1) @ [0x00, 0x00, 0x7E])) = Some 65535
   \<and> extractValue (holding ([0x7E, 0xA0, 0x12, 0x41, 0x03, 0x52, 0x00, 0x00, 0xE6, 0xE7, 0x00,
      0xC4, 0x01, 0xC1, 0x00, 0x10] @ spec_encode_long (- 1) @ [0x00, 0x00, 0x7E])) \<noteq> Some (- 1)"
  by (simp add: spec_encode_long_minus_1 extractValue_def Let_def)

section \<open>Properties of the date-time decoder\<close>

lemma decimal_digit: "n < 10 \<Longrightarrow> decimal n = [char_of (48 + n)]"
  by (simp add: decimal.simps)

lemma length_decimal_1: "n < 10 \<Longrightarrow> length (decimal n) = 1"
  by (simp add: decimal_digit)

lemma length_decimal_2: "10 \<le> n \<Longrightarrow> n < 100 \<Longrightarrow> length (decimal n) = 2"
  by (subst decimal.simps) (simp add: length_decimal_1)

lemma length_decimal_3: "100 \<le> n \<Longrightarrow> n < 1000 \<Longrightarrow> length (decimal n) = 3"
  by (subst decimal.simps) (simp add: length_decimal_2)

lemma length_decimal_4: "1000 \<le> n \<Longrightarrow> n < 10000 \<Longrightarrow> length (decimal n) = 4"
  by (subst decimal.simps) (simp add: length_decimal_3)

lemma length_decimal_le_4: "n < 10000 \<Longrightarrow> length (decimal n) \<le> 4"
  using length_decimal_1 [of n] length_decimal_2 [of n] length_decimal_3 [of n]
    length_decimal_4 [of n]
  by (cases "n < 10"; cases "n < 100"; cases "n < 1000") simp_all

lemma length_decimal_le_2: "n < 100 \<Longrightarrow> length (decimal n) \<le> 2"
  using length_decimal_1 [of n] length_decimal_2 [of n]
  by (cases "n < 10") simp_all

lemma length_zero_padded_4: "n < 10000 \<Longrightarrow> length (zero_padded 4 n) = 4"
  using length_decimal_le_4 [of n] by (simp add: zero_padded_def)

lemma length_zero_padded_2: "n < 100 \<Longrightarrow> length (zero_padded 2 n) = 2"
  using length_decimal_le_2 [of n] by (simp add: zero_padded_def)

lemma char_of_48: "char_of (48::nat) = CHR ''0''" and char_of_49: "char_of (49::nat) = CHR ''1''"
  by (simp_all add: char_of_eq_iff take_bit_eq_mod)

lemma replicate_3: "replicate 3 x = [x, x, x]"
  by (simp add: numeral_3_eq_3)

lemma zero_padded_4_0: "zero_padded 4 0 = ''0000''"
  by (simp add: zero_padded_def decimal_digit char_of_48 replicate_3)

lemma zero_padded_2_0: "zero_padded 2 0 = ''00''"
  by (simp add: zero_padded_def decimal_digit char_of_48)

lemma zero_padded_2_1: "zero_padded 2 1 = ''01''"
  by (simp add: zero_padded_def decimal_digit char_of_49)

lemma year_unspecified_iff:
  "(ucast (push_bit 8 (ucast hi :: u32) OR (ucast lo :: u32)) :: u16) = 0xFFFF
     \<longleftrightarrow> hi = 0xFF \<and> lo = 0xFF" for hi lo :: u8
proof -
  let ?y = "(ucast (push_bit 8 (ucast hi :: u32) OR (ucast lo :: u32)) :: u16)"
  have "?y = 0xFFFF \<longleftrightarrow> unat ?y = 65535"
    by (simp add: word_unat_eq_iff)
  also have "\<dots> \<longleftrightarrow> unat hi = 255 \<and> unat lo = 255"
    using unat_u8_less [of hi] unat_u8_less [of lo] by (simp only: be16_value) arith
  also have "\<dots> \<longleftrightarrow> hi = 0xFF \<and> lo = 0xFF"
    by (simp add: word_unat_eq_iff)
  finally show ?thesis .
qed

lemma field_2_digits:
  "b = 0xFF \<or> unat b < 100 \<Longrightarrow> length (zero_padded 2 (unat (if b = 0xFF then d else b))) = 2"
  if "unat d < 100" for b d :: u8
  using that by (auto simp add: length_zero_padded_2)

lemma zero_padded_2_Suc_0: "zero_padded 2 (Suc 0) = ''01''"
  using zero_padded_2_1 by simp

lemma timestamp_layout:
  assumes "length Y = 4" "length M = 2" "length D = 2" "length h = 2" "length m = 2"
    "length s = (2::nat)"
  shows "take 4 (Y @ ''-'' @ M @ ''-'' @ D @ '' '' @ h @ '':'' @ m @ '':'' @ s) = Y"
    and "take 2 (drop 5 (Y @ ''-'' @ M @ ''-'' @ D @ '' '' @ h @ '':'' @ m @ '':'' @ s)) = M"
    and "take 2 (drop 8 (Y @ ''-'' @ M @ ''-'' @ D @ '' '' @ h @ '':'' @ m @ '':'' @ s)) = D"
    and "take 2 (drop 11 (Y @ ''-'' @ M @ ''-'' @ D @ '' '' @ h @ '':'' @ m @ '':'' @ s)) = h"
    and "take 2 (drop 14 (Y @ ''-'' @ M @ ''-'' @ D @ '' '' @ h @ '':'' @ m @ '':'' @ s)) = m"
    and "take 2 (drop 17 (Y @ ''-'' @ M @ ''-'' @ D @ '' '' @ h @ '':'' @ m @ '':'' @ s)) = s"
  using assms by simp_all

lemma zero_padded_capture_time:
  "zero_padded 4 2025 = ''2025''" "zero_padded 2 10 = ''10''" "zero_padded 2 2 = ''02''"
  "zero_padded 2 3 = ''03''" "zero_padded 2 12 = ''12''" "zero_padded 2 30 = ''30''"
  by code_simp+

text \<open>
  The source takes hour, minute and second from offsets 21, 22 and 23. In the
  12-byte date-time that starts at offset 17 these are the day of week, the hour
  and the minute; the second is at offset 24. For the capture time of the
  specification's third scenario (day of week 3, 12:30:00) the text is
  \<open>03:12:30\<close>.
\<close>

lemma extractDateTime_time_of_day_offsets:
  "extractDateTime (holding response_capture_time) = Inr (Some ''2025-10-02 03:12:30'')"
  by (simp add: extractDateTime_def Let_def response_capture_time_def
      zero_padded_capture_time)

text \<open>
  C9, as the code has it. For a response of at least 30 bytes in which the year,
  the month, the day and the three bytes at offsets 21 to 23 print in their usual
  widths, the timestamp has 19 characters; a year field of \<open>0xFFFF\<close> is printed
  as \<open>0000\<close>, and month and day fields of \<open>0xFF\<close> are printed as \<open>01\<close> (the
  source assigns 1 to them). Nothing is stated of the time of day.
\<close>

theorem extractDateTime_unspecified:
  assumes len: "receiveLength st \<ge> 30"
    and year: "(receiveBuffer st ! 17 = 0xFF \<and> receiveBuffer st ! 18 = 0xFF)
               \<or> 256 * unat (receiveBuffer st ! 17) + unat (receiveBuffer st ! 18) < 10000"
    and month: "receiveBuffer st ! 19 = 0xFF \<or> unat (receiveBuffer st ! 19) < 100"
    and day: "receiveBuffer st ! 20 = 0xFF \<or> unat (receiveBuffer st ! 20) < 100"
    and b21: "receiveBuffer st ! 21 = 0xFF \<or> unat (receiveBuffer st ! 21) < 100"
    and b22: "receiveBuffer st ! 22 = 0xFF \<or> unat (receiveBuffer st ! 22) < 100"
    and b23: "receiveBuffer st ! 23 = 0xFF \<or> unat (receiveBuffer st ! 23) < 100"
  shows "\<exists>text. extractDateTime st = Inr (Some text) \<and> length text = 19
    \<and> (receiveBuffer st ! 17 = 0xFF \<and> receiveBuffer st ! 18 = 0xFF \<longrightarrow> take 4 text = ''0000'')
    \<and> (receiveBuffer st ! 19 = 0xFF \<longrightarrow> take 2 (drop 5 text) = ''01'')
    \<and> (receiveBuffer st ! 20 = 0xFF \<longrightarrow> take 2 (drop 8 text) = ''01'')"
proof -
  let ?rb = "receiveBuffer st"
  let ?year = "(ucast (push_bit 8 (ucast (?rb ! 17) :: u32) OR (ucast (?rb ! 18) :: u32)) :: u16)"
  let ?Y = "zero_padded 4 (unat (if ?year = 0xFFFF then 0 else ?year))"
  let ?M = "zero_padded 2 (unat (if ?rb ! 19 = 0xFF then 1 else ?rb ! 19))"
  let ?D = "zero_padded 2 (unat (if ?rb ! 20 = 0xFF then 1 else ?rb ! 20))"
  let ?h = "zero_padded 2 (unat (if ?rb ! 21 = 0xFF then 0 else ?rb ! 21))"
  let ?m = "zero_padded 2 (unat (if ?rb ! 22 = 0xFF then 0 else ?rb ! 22))"
  let ?s = "zero_padded 2 (unat (if ?rb ! 23 = 0xFF then 0 else ?rb ! 23))"
  let ?text = "?Y @ ''-'' @ ?M @ ''-'' @ ?D @ '' '' @ ?h @ '':'' @ ?m @ '':'' @ ?s"
  have Y: "length ?Y = 4"
    using year by (auto simp add: year_unspecified_iff be16_value length_zero_padded_4)
  have M: "length ?M = 2" and D: "length ?D = 2"
    using month day by (simp_all add: field_2_digits)
  have h: "length ?h = 2" and m: "length ?m = 2" and s: "length ?s = 2"
    using b21 b22 b23 by (simp_all add: field_2_digits)
  have total: "length ?text = 19"
    by (simp only: length_append Y M D h m s) simp
  have result: "extractDateTime st = Inr (Some ?text)"
    using len total by (simp add: extractDateTime_def Let_def)
  note layout = timestamp_layout [OF Y M D h m s]
  have y0: "take 4 ?text = ''0000''" if "?rb ! 17 = 0xFF \<and> ?rb ! 18 = 0xFF"
  proof -
    from that have eq: "?Y = ''0000''"
      by (simp add: year_unspecified_iff zero_padded_4_0)
    show ?thesis
      unfolding layout by (rule eq)
  qed
  have m1: "take 2 (drop 5 ?text) = ''01''" if "?rb ! 19 = 0xFF"
  proof -
    from that have eq: "?M = ''01''"
      by (simp add: zero_padded_2_Suc_0)
    show ?thesis
      unfolding layout by (rule eq)
  qed
  have d1: "take 2 (drop 8 ?text) = ''01''" if "?rb ! 20 = 0xFF"
  proof -
    from that have eq: "?D = ''01''"
      by (simp add: zero_padded_2_Suc_0)
    show ?thesis
      unfolding layout by (rule eq)
  qed
  show ?thesis
    using result total y0 m1 d1 by blast
qed

theorem extractDateTime_unspecified_witness:
  "\<exists>text. extractDateTime (holding [0x7E, 0xA0, 0x1E, 0x41, 0x03, 0x52, 0x00, 0x00, 0xE6,
      0xE7, 0x00, 0xC4, 0x01, 0xC1, 0x00, 0x09, 0x0C, 0xFF, 0xFF, 0xFF, 0xFF, 0xFF, 0xFF, 0xFF,
      0xFF, 0xFF, 0x80, 0x00, 0xFF, 0x00, 0x00, 0x7E]) = Inr (Some text)
     \<and> length text = 19 \<and> take 4 text = ''0000'' \<and> take 2 (drop 5 text) = ''01''
     \<and> take 2 (drop 8 text) = ''01''"
  using extractDateTime_unspecified [of "holding [0x7E, 0xA0, 0x1E, 0x41, 0x03, 0x52, 0x00, 0x00, 0xE6,
      0xE7, 0x00, 0xC4, 0x01, 0xC1, 0x00, 0x09, 0x0C, 0xFF, 0xFF, 0xFF, 0xFF, 0xFF, 0xFF, 0xFF,
      0xFF, 0xFF, 0x80, 0x00, 0xFF, 0x00, 0x00, 0x7E]"]
  by simp

text \<open>
  The claim as stated fails: with every field unspecified, month and day are not
  encoded as 0.
\<close>

theorem extractDateTime_unspecified_counterexample:
  "extractDateTime (holding [0x7E, 0xA0, 0x1E, 0x41, 0x03, 0x52, 0x00, 0x00, 0xE6,
      0xE7, 0x00, 0xC4, 0x01, 0xC1, 0x00, 0x09, 0x0C, 0xFF, 0xFF, 0xFF, 0xFF, 0xFF, 0xFF, 0xFF,
      0xFF, 0xFF, 0x80, 0x00, 0xFF, 0x00, 0x00, 0x7E]) = Inr (Some ''0000-01-01 00:00:00'')"
  by (simp add: extractDateTime_def Let_def zero_padded_4_0 zero_padded_2_0
      zero_padded_2_Suc_0)

section \<open>Properties of one read\<close>

lemma incrementFrameCounter_counter [simp]:
  "hdlcFrameCounter (incrementFrameCounter st) = advanced (hdlcFrameCounter st)"
  by (simp add: incrementFrameCounter_def advanced_def)

lemma incrementFrameCounter_serialTx [simp]:
  "serialTx (incrementFrameCounter st) = serialTx st"
  by (simp add: incrementFrameCounter_def)

lemma exchange_counter [simp]:
  "hdlcFrameCounter (snd (exchange rf frame st)) = hdlcFrameCounter st"
  by (simp add: exchange_def sendFrame_def receiveFrame_with_def Let_def split_beta)

lemma exchange_serialTx [simp]:
  "serialTx (snd (exchange rf frame st)) = serialTx st @ [frame]"
  by (simp add: exchange_def sendFrame_def receiveFrame_with_def Let_def split_beta)

text \<open>
  The scaler block and the capture-time block call \<open>incrementFrameCounter\<close> after
  their \<open>if\<close>, so they advance the counter whether or not their exchange was
  verified. No run of the program reaches them (see the next section).
\<close>

lemma readScaler_counter [simp]:
  "hdlcFrameCounter (snd (readScaler rf obis v st)) = advanced (hdlcFrameCounter st)"
  by (simp add: readScaler_def Let_def split_beta)

lemma readScaler_serialTx [simp]:
  "serialTx (snd (readScaler rf obis v st))
     = serialTx st @ [buildOBISFrame obis (classId obis) 0x03 (hdlcFrameCounter st)]"
  by (simp add: readScaler_def Let_def split_beta)

lemma readScaler_value:
  "fst (readScaler rf obis v st) =
     (if fst (exchange rf (buildOBISFrame obis (classId obis) 0x03 (hdlcFrameCounter st)) st)
      then applyScaler
             (snd (exchange rf (buildOBISFrame obis (classId obis) 0x03 (hdlcFrameCounter st)) st)) v
      else v)"
  by (simp add: readScaler_def Let_def split_beta)


lemma readCaptureTime_serialTx:
  "readCaptureTime rf obis ts st = Inr (ts', st')
     \<Longrightarrow> serialTx st'
           = serialTx st @ [buildOBISFrame obis (classId obis) 0x05 (hdlcFrameCounter st)]"
  by (auto simp add: readCaptureTime_def Let_def split_beta
      split: if_splits sum.splits option.splits)

lemma buildOBISFrame_attribute [simp]:
  "buildOBISFrame obis cls attribute counter ! 22 = attribute"
  by (simp add: buildOBISFrame_def Let_def)


lemma readOBIS_sent:
  assumes "readOBIS rf obis st = Inr (r, st')"
  shows "\<exists>frames. serialTx st' = serialTx st @ frames \<and> attributes frames =
      (if \<not> fst (classStep rf obis st) then [0x01]
       else if \<not> fst (valueStep rf obis st) \<or> extractValue (snd (valueStep rf obis st)) = None
         then [0x01, 0x02]
       else if classId obis = 0x03 then [0x01, 0x02, 0x03]
       else if classId obis = 0x04 then [0x01, 0x02, 0x05]
       else [0x01, 0x02])"
  using assms
  by (auto simp add: readOBIS_def Let_def split_beta
      split: if_splits option.splits sum.splits dest!: readCaptureTime_serialTx)

lemma readOBIS_flag:
  assumes "readOBIS rf obis st = Inr ((ok, v, ts), st')"
  shows "ok \<longleftrightarrow> fst (classStep rf obis st) \<and> fst (valueStep rf obis st)
      \<and> extractValue (snd (valueStep rf obis st)) \<noteq> None"
  using assms
  by (auto simp add: readOBIS_def Let_def split_beta
      split: if_splits option.splits sum.splits)

lemma readOBIS_value:
  assumes "readOBIS rf obis st = Inr ((ok, v, ts), st')"
    and "fst (classStep rf obis st)" and "fst (valueStep rf obis st)"
    and "extractValue (snd (valueStep rf obis st)) = Some raw"
  shows "v = (if classId obis = 0x03
              then (if fst (scalerStep rf obis st)
                    then applyScaler (snd (scalerStep rf obis st)) raw else raw)
              else raw)"
  using assms
  by (auto simp add: readOBIS_def Let_def split_beta readScaler_value
      split: if_splits option.splits sum.splits)

lemma readOBIS_returns:
  "classId obis \<noteq> 0x04 \<Longrightarrow> \<exists>r st'. readOBIS rf obis st = Inr (r, st')"
  by (auto simp add: readOBIS_def Let_def split_beta split: option.splits)

section \<open>Reads with the program's receiver\<close>

lemma classIds:
  "classId METER_SERIAL_NUMBER = 1" "classId METER_MANUFACTURER = 1"
  "classId KWH_IMPORT = 3" "classId MD_KW_IMPORT = 4"
  by (simp_all add: METER_SERIAL_NUMBER_def METER_MANUFACTURER_def KWH_IMPORT_def
      MD_KW_IMPORT_def mkOBISCode_def)

lemma receive_loop_silent:
  "receive_loop t [] frameStarted buf len = ((False, buf, len), [])"
  by (induction t) simp_all

text \<open>
  No exchange of the program succeeds, since its receive never reports a frame; so
  every read ends in its first step, whatever the line holds: one request is sent,
  \<open>false\<close> is returned and the counter stays.
\<close>

lemma exchange_program:
  "\<not> fst (exchange (receiveFrame timeout) frame st)"
proof -
  have "\<not> fst (fst (receiveFrame timeout (serialRx st)))"
    by (simp add: receiveFrame_def receive_loop_never_succeeds)
  then show ?thesis
    by (simp add: exchange_def sendFrame_def receiveFrame_with_def Let_def split_beta)
qed

lemma readOBIS_program:
  "readOBIS (receiveFrame timeout) obis st
     = Inr ((False, 0, []), snd (classStep (receiveFrame timeout) obis st))"
  using exchange_program [of timeout _ st] by (simp add: readOBIS_def Let_def split_beta)

lemma readOBISString_program:
  "readOBISString (receiveFrame timeout) obis st
     = ((False, []),
        snd (exchange (receiveFrame timeout)
               (buildOBISFrame obis (classId obis) 0x02 (hdlcFrameCounter st)) st))"
  using exchange_program [of timeout _ st]
  by (simp add: readOBISString_def Let_def split_beta)

text \<open>The shipped receiver on a line that stays silent.\<close>

lemma run_silent:
  "readOBIS (receiveFrame COMMAND_TIMEOUT) KWH_IMPORT (DLMSProtocol_new [])
   = Inr ((False, 0, []),
       \<lparr>hdlcFrameCounter = 0x10, receiveBuffer = replicate MAX_FRAME_SIZE 0,
        receiveLength = 0, serialTx = [buildOBISFrame KWH_IMPORT 3 1 0x10], serialRx = []\<rparr>)"
  by (simp add: readOBIS_def exchange_def sendFrame_def receiveFrame_with_def
      DLMSProtocol_new_def Let_def receiveFrame_def receive_loop_silent classIds)

lemma demand_read_result:
  "demand_read = Inr ((False, 0, []), snd (projr demand_read))
   \<and> hdlcFrameCounter (snd (projr demand_read)) = 0x10
   \<and> serialTx (snd (projr demand_read)) = [buildOBISFrame MD_KW_IMPORT 4 1 0x10]"
  by (simp add: demand_read_def readOBIS_program classIds DLMSProtocol_new_def)

section \<open>The frame counter\<close>



section \<open>Retries\<close>

text \<open>
  C5, as the code has it. No step of a GET transaction is retried
  (\<open>MAX_RETRY_COUNT\<close> is not used): a call of \<open>readOBIS\<close> sends the request of each
  step at most once, a class or value step that fails ends the call with \<open>false\<close>
  after that single request, and \<open>readOBISString\<close> sends exactly one request.
\<close>

theorem read_sends_each_request_once:
  assumes "readOBIS rf obis st = Inr ((ok, v, ts), st')"
  shows "(\<exists>frames. serialTx st' = serialTx st @ frames
        \<and> attributes frames \<in> {[0x01], [0x01, 0x02], [0x01, 0x02, 0x03], [0x01, 0x02, 0x05]}
        \<and> (\<not> fst (classStep rf obis st) \<longrightarrow> \<not> ok \<and> attributes frames = [0x01])
        \<and> (fst (classStep rf obis st) \<and> \<not> fst (valueStep rf obis st) \<longrightarrow>
             \<not> ok \<and> attributes frames = [0x01, 0x02]))
    \<and> serialTx (snd (readOBISString rf obis st))
        = serialTx st @ [buildOBISFrame obis (classId obis) 0x02 (hdlcFrameCounter st)]
    \<and> (\<not> fst (exchange rf (buildOBISFrame obis (classId obis) 0x02 (hdlcFrameCounter st)) st)
         \<longrightarrow> \<not> fst (fst (readOBISString rf obis st)))"
proof -
  from readOBIS_sent [OF assms]
  obtain frames where frames: "serialTx st' = serialTx st @ frames"
    and attrs: "attributes frames =
      (if \<not> fst (classStep rf obis st) then [0x01]
       else if \<not> fst (valueStep rf obis st) \<or> extractValue (snd (valueStep rf obis st)) = None
         then [0x01, 0x02]
       else if classId obis = 0x03 then [0x01, 0x02, 0x03]
       else if classId obis = 0x04 then [0x01, 0x02, 0x05]
       else [0x01, 0x02])"
    by (elim exE conjE)
  have flag: "ok \<longleftrightarrow> fst (classStep rf obis st) \<and> fst (valueStep rf obis st)
      \<and> extractValue (snd (valueStep rf obis st)) \<noteq> None"
    using assms by (rule readOBIS_flag)
  have a: "attributes frames \<in> {[0x01], [0x01, 0x02], [0x01, 0x02, 0x03], [0x01, 0x02, 0x05]}"
    unfolding attrs by simp
  have b: "\<not> fst (classStep rf obis st) \<longrightarrow> \<not> ok \<and> attributes frames = [0x01]"
    unfolding attrs flag by simp
  have c: "fst (classStep rf obis st) \<and> \<not> fst (valueStep rf obis st) \<longrightarrow>
      \<not> ok \<and> attributes frames = [0x01, 0x02]"
    unfolding attrs flag by simp
  have d: "serialTx (snd (readOBISString rf obis st))
      = serialTx st @ [buildOBISFrame obis (classId obis) 0x02 (hdlcFrameCounter st)]"
    by (simp add: readOBISString_def Let_def split_beta split: option.splits)
  have e: "\<not> fst (exchange rf (buildOBISFrame obis (classId obis) 0x02 (hdlcFrameCounter st)) st)
      \<longrightarrow> \<not> fst (fst (readOBISString rf obis st))"
    by (simp add: readOBISString_def Let_def split_beta split: option.splits)
  from frames a b c d e show ?thesis
    by (intro conjI exI [of _ frames])
qed

theorem read_sends_each_request_once_witness:
  "readOBIS (receiveFrame COMMAND_TIMEOUT) KWH_IMPORT (DLMSProtocol_new [])
     = Inr ((False, 0, []),
         \<lparr>hdlcFrameCounter = 0x10, receiveBuffer = replicate MAX_FRAME_SIZE 0,
          receiveLength = 0, serialTx = [buildOBISFrame KWH_IMPORT 3 1 0x10], serialRx = []\<rparr>)
   \<and> \<not> fst (classStep (receiveFrame COMMAND_TIMEOUT) KWH_IMPORT (DLMSProtocol_new []))
   \<and> attributes [buildOBISFrame KWH_IMPORT 3 1 0x10] = [0x01]"
  using read_sends_each_request_once [OF run_silent] run_silent
  by (simp add: exchange_def sendFrame_def receiveFrame_with_def DLMSProtocol_new_def Let_def
      receiveFrame_def receive_loop_silent)

text \<open>
  The claim as stated fails. On a silent line the receive times out and \<open>readOBIS\<close>
  returns \<open>false\<close> after one request; and on a line that carries the meter's
  answers the read of the maximum demand ends the same way.
\<close>

theorem read_retry_counterexample:
  "readOBIS (receiveFrame COMMAND_TIMEOUT) KWH_IMPORT (DLMSProtocol_new [])
     = Inr ((False, 0, []),
         \<lparr>hdlcFrameCounter = 0x10, receiveBuffer = replicate MAX_FRAME_SIZE 0,
          receiveLength = 0, serialTx = [buildOBISFrame KWH_IMPORT 3 1 0x10], serialRx = []\<rparr>)
   \<and> demand_read = Inr ((False, 0, []), snd (projr demand_read))
   \<and> serialTx (snd (projr demand_read)) = [buildOBISFrame MD_KW_IMPORT 4 1 0x10]"
  using run_silent demand_read_result by simp

section \<open>Scaler and capture time\<close>





section \<open>Validity of a reading\<close>

lemma readInto_Inl [simp]: "readInto rf reg (Inl f) = Inl f"
  by (simp add: readInto_def)

lemma foldl_readInto_Inl [simp]: "foldl (\<lambda>r reg. readInto rf reg r) (Inl f) regs = Inl f"
  by (induction regs) simp_all

lemma readInto_Inr:
  "readInto rf reg r = Inr (d', st') \<Longrightarrow>
     \<exists>d st v t. r = Inr (d, st) \<and> d' = snd reg v t d"
  by (auto simp add: readInto_def split: sum.splits prod.splits)

text \<open>A field that no register of a list assigns keeps its value through the reads.\<close>

lemma foldl_readInto_keeps:
  assumes "foldl (\<lambda>r reg. readInto rf reg r) (Inr (d, st)) regs = Inr (d', st')"
    and "\<And>reg v t x. reg \<in> set regs \<Longrightarrow> sel (snd reg v t x) = sel x"
  shows "sel d' = sel d"
  using assms
proof (induction regs arbitrary: d st)
  case Nil
  then show ?case by simp
next
  case (Cons reg regs)
  show ?case
  proof (cases "readInto rf reg (Inr (d, st))")
    case (Inl f)
    with Cons.prems(1) show ?thesis by simp
  next
    case (Inr p)
    obtain d1 st1 where p: "p = (d1, st1)" by (cases p)
    from Inr p obtain v t where d1: "d1 = snd reg v t d"
      by (auto dest!: readInto_Inr)
    have "sel d' = sel d1"
      using Cons.prems Inr p by (intro Cons.IH [of d1 st1]) simp_all
    also have "\<dots> = sel d"
      unfolding d1 by (rule Cons.prems(2)) simp
    finally show ?thesis .
  qed
qed

lemma upt_4: "[0..<4] = [0, 1, 2, 3]"
  by code_simp

lemma registers_unrolled:
  "registers =
     (KWH_IMPORT, \<lambda>v dummy d. d\<lparr>kwhImport := v\<rparr>) #
     [(KVAH_IMPORT, \<lambda>v dummy d. d\<lparr>kvahImport := v\<rparr>),
      (KWH_EXPORT, \<lambda>v dummy d. d\<lparr>kwhExport := v\<rparr>),
      (KVAH_EXPORT, \<lambda>v dummy d. d\<lparr>kvahExport := v\<rparr>),
      (KVARH_LAG, \<lambda>v dummy d. d\<lparr>kvarhLag := v\<rparr>),
      (KVARH_LEAD, \<lambda>v dummy d. d\<lparr>kvarhLead := v\<rparr>),
      (MD_KW_IMPORT, \<lambda>v t d. d\<lparr>mdKWImport := \<lparr>md_value = v, md_timestamp = t\<rparr>\<rparr>),
      (MD_KVA_IMPORT, \<lambda>v t d. d\<lparr>mdKVAImport := \<lparr>md_value = v, md_timestamp = t\<rparr>\<rparr>),
      (VOLTAGE_R, \<lambda>v dummy d. d\<lparr>voltageR := v\<rparr>),
      (VOLTAGE_Y, \<lambda>v dummy d. d\<lparr>voltageY := v\<rparr>),
      (VOLTAGE_B, \<lambda>v dummy d. d\<lparr>voltageB := v\<rparr>),
      (CURRENT_R, \<lambda>v dummy d. d\<lparr>currentR := v\<rparr>),
      (CURRENT_Y, \<lambda>v dummy d. d\<lparr>currentY := v\<rparr>),
      (CURRENT_B, \<lambda>v dummy d. d\<lparr>currentB := v\<rparr>),
      (POWER_FACTOR, \<lambda>v dummy d. d\<lparr>powerFactor := v\<rparr>),
      (FREQUENCY, \<lambda>v dummy d. d\<lparr>frequency := v\<rparr>),
      (KWH_IMPORT_RATE ! 0,
       \<lambda>v t d. d\<lparr>todZones := (todZones d)[0 := (todZones d ! 0)\<lparr>kwh := v, kwhTimestamp := t\<rparr>]\<rparr>),
      (KVAH_IMPORT_RATE ! 0,
       \<lambda>v t d. d\<lparr>todZones := (todZones d)[0 := (todZones d ! 0)\<lparr>kvah := v, kvahTimestamp := t\<rparr>]\<rparr>),
      (KWH_IMPORT_RATE ! 1,
       \<lambda>v t d. d\<lparr>todZones := (todZones d)[1 := (todZones d ! 1)\<lparr>kwh := v, kwhTimestamp := t\<rparr>]\<rparr>),
      (KVAH_IMPORT_RATE ! 1,
       \<lambda>v t d. d\<lparr>todZones := (todZones d)[1 := (todZones d ! 1)\<lparr>kvah := v, kvahTimestamp := t\<rparr>]\<rparr>),
      (KWH_IMPORT_RATE ! 2,
       \<lambda>v t d. d\<lparr>todZones := (todZones d)[2 := (todZones d ! 2)\<lparr>kwh := v, kwhTimestamp := t\<rparr>]\<rparr>),
      (KVAH_IMPORT_RATE ! 2,
       \<lambda>v t d. d\<lparr>todZones := (todZones d)[2 := (todZones d ! 2)\<lparr>kvah := v, kvahTimestamp := t\<rparr>]\<rparr>),
      (KWH_IMPORT_RATE ! 3,
       \<lambda>v t d. d\<lparr>todZones := (todZones d)[3 := (todZones d ! 3)\<lparr>kwh := v, kwhTimestamp := t\<rparr>]\<rparr>),
      (KVAH_IMPORT_RATE ! 3,
       \<lambda>v t d. d\<lparr>todZones := (todZones d)[3 := (todZones d ! 3)\<lparr>kvah := v, kvahTimestamp := t\<rparr>]\<rparr>)]"
  unfolding registers_def upt_4 by simp

lemma registers_keep_serialNumber:
  "reg \<in> set registers \<Longrightarrow> serialNumber (snd reg v t x) = serialNumber x"
  unfolding registers_unrolled by auto

lemma readMeterData_unfolded:
  "readMeterData rf now data st =
     (case foldl (\<lambda>r reg. readInto rf reg r)
             (Inr ((clear data)\<lparr>serialNumber := snd (fst (readOBISString rf METER_SERIAL_NUMBER st)),
                     manufacturer := snd (fst (readOBISString rf METER_MANUFACTURER
                        (snd (readOBISString rf METER_SERIAL_NUMBER st))))\<rparr>,
                   snd (readOBISString rf METER_MANUFACTURER
                        (snd (readOBISString rf METER_SERIAL_NUMBER st)))))
             registers of
        Inl f \<Rightarrow> Inl f
      | Inr p \<Rightarrow>
          Inr ((fst (fst (readOBISString rf METER_SERIAL_NUMBER st))
                \<and> fst (fst (readOBISString rf METER_MANUFACTURER
                      (snd (readOBISString rf METER_SERIAL_NUMBER st)))),
                (fst p)\<lparr>dataValid := True, lastReadTime := now,
                  lastReadTimestamp := ''2025-10-02 12:00:00''\<rparr>), snd p))"
  by (simp add: readMeterData_def Let_def split_beta split: sum.splits)

lemma readMeterData_result:
  assumes "readMeterData rf now data st = Inr ((success, data'), st')"
  shows "dataValid data'
    \<and> (isValid data' \<longleftrightarrow>
         serialNumber data' \<noteq> [] \<and> (kwhImport data' > 0 \<or> kvahImport data' > 0))
    \<and> serialNumber data' = snd (fst (readOBISString rf METER_SERIAL_NUMBER st))
    \<and> (success \<longleftrightarrow> fst (fst (readOBISString rf METER_SERIAL_NUMBER st))
          \<and> fst (fst (readOBISString rf METER_MANUFACTURER
                (snd (readOBISString rf METER_SERIAL_NUMBER st)))))"
proof -
  let ?r1 = "readOBISString rf METER_SERIAL_NUMBER st"
  let ?r2 = "readOBISString rf METER_MANUFACTURER (snd ?r1)"
  let ?d2 = "(clear data)\<lparr>serialNumber := snd (fst ?r1), manufacturer := snd (fst ?r2)\<rparr>"
  let ?F = "foldl (\<lambda>r reg. readInto rf reg r) (Inr (?d2, snd ?r2)) registers"
  obtain d3 st3 where fold: "?F = Inr (d3, st3)"
    using assms unfolding readMeterData_unfolded by (cases ?F) auto
  have data': "data' = d3\<lparr>dataValid := True, lastReadTime := now,
        lastReadTimestamp := ''2025-10-02 12:00:00''\<rparr>"
    and success: "success \<longleftrightarrow> fst (fst ?r1) \<and> fst (fst ?r2)"
    using assms unfolding readMeterData_unfolded fold by simp_all
  have "serialNumber d3 = serialNumber ?d2"
    using fold by (rule foldl_readInto_keeps) (rule registers_keep_serialNumber)
  then have sn: "serialNumber data' = snd (fst ?r1)"
    by (simp add: data')
  have valid: "dataValid data'"
    by (simp add: data')
  then have iff: "isValid data' \<longleftrightarrow>
      serialNumber data' \<noteq> [] \<and> (kwhImport data' > 0 \<or> kvahImport data' > 0)"
    by (simp add: isValid_def)
  from valid iff sn success show ?thesis
    by (intro conjI)
qed

text \<open>
  C7, as the code has it. After every read cycle that returns, the flag \<open>dataValid\<close>
  is set, whether or not the identification reads succeeded. \<open>isValid\<close> holds
  exactly when, in addition, the serial number that was read is not empty and the
  active or the apparent energy import is positive. The flag \<open>success\<close>, which tells
  whether both identification reads succeeded, does not enter, and neither do the
  manufacturer and the other cumulative registers.
\<close>

theorem reading_valid_iff:
  assumes "readMeterData rf now data st = Inr ((success, data'), st')"
  shows "dataValid data'
    \<and> (isValid data' \<longleftrightarrow>
         serialNumber data' \<noteq> [] \<and> (kwhImport data' > 0 \<or> kvahImport data' > 0))
    \<and> serialNumber data' = snd (fst (readOBISString rf METER_SERIAL_NUMBER st))
    \<and> (success \<longleftrightarrow> fst (fst (readOBISString rf METER_SERIAL_NUMBER st))
          \<and> fst (fst (readOBISString rf METER_MANUFACTURER
                (snd (readOBISString rf METER_SERIAL_NUMBER st)))))"
  using assms by (rule readMeterData_result)

section \<open>A read cycle of the program\<close>

lemma foldl_readInto_program:
  "\<exists>d' st'. foldl (\<lambda>r reg. readInto (receiveFrame timeout) reg r) (Inr (d, st)) regs
      = Inr (d', st')"
proof (induction regs arbitrary: d st)
  case Nil
  show ?case by simp
next
  case (Cons reg regs)
  have "readInto (receiveFrame timeout) reg (Inr (d, st))
      = Inr (snd reg 0 [] d, snd (classStep (receiveFrame timeout) (fst reg) st))"
    by (simp add: readInto_def readOBIS_program)
  then show ?case
    using Cons.IH [of "snd reg 0 [] d" "snd (classStep (receiveFrame timeout) (fst reg) st)"]
    by simp
qed

text \<open>Every read cycle of the program returns, and returns \<open>false\<close>.\<close>

lemma readMeterData_program:
  "\<exists>d s. readMeterData (receiveFrame timeout) now data st = Inr ((False, d), s)"
proof -
  let ?rf = "receiveFrame timeout"
  let ?r1 = "readOBISString ?rf METER_SERIAL_NUMBER st"
  let ?r2 = "readOBISString ?rf METER_MANUFACTURER (snd ?r1)"
  let ?d2 = "(clear data)\<lparr>serialNumber := snd (fst ?r1), manufacturer := snd (fst ?r2)\<rparr>"
  obtain d3 st3 where fold: "foldl (\<lambda>r reg. readInto ?rf reg r) (Inr (?d2, snd ?r2)) registers
      = Inr (d3, st3)"
    using foldl_readInto_program [of timeout ?d2 "snd ?r2" registers] by (elim exE)
  have "\<not> fst (fst ?r1)"
    by (simp add: readOBISString_program)
  then show ?thesis
    unfolding readMeterData_unfolded fold by simp
qed

lemma serial_cycle_result:
  "serial_cycle = Inr ((False, snd (fst (projr serial_cycle))), snd (projr serial_cycle))
   \<and> dataValid (snd (fst (projr serial_cycle)))
   \<and> serialNumber (snd (fst (projr serial_cycle))) = []
   \<and> \<not> isValid (snd (fst (projr serial_cycle)))"
proof -
  obtain d s where run: "serial_cycle = Inr ((False, d), s)"
    using readMeterData_program [of COMMAND_TIMEOUT 0 MeterData_new
        "DLMSProtocol_new (map Some response_serial)"]
    unfolding serial_cycle_def by (elim exE)
  have "readMeterData (receiveFrame COMMAND_TIMEOUT) 0 MeterData_new
      (DLMSProtocol_new (map Some response_serial)) = Inr ((False, d), s)"
    using run by (simp only: serial_cycle_def)
  from readMeterData_result [OF this]
  have "dataValid d" and "serialNumber d = []"
    by (simp_all add: readOBISString_program)
  then show ?thesis
    unfolding run by (simp add: isValid_def)
qed

theorem reading_valid_iff_witness:
  "readMeterData (receiveFrame COMMAND_TIMEOUT) 0 MeterData_new
       (DLMSProtocol_new (map Some response_serial))
     = Inr ((False, snd (fst (projr serial_cycle))), snd (projr serial_cycle))
   \<and> dataValid (snd (fst (projr serial_cycle)))
   \<and> serialNumber (snd (fst (projr serial_cycle))) = []
   \<and> \<not> isValid (snd (fst (projr serial_cycle)))"
proof -
  have run: "readMeterData (receiveFrame COMMAND_TIMEOUT) 0 MeterData_new
       (DLMSProtocol_new (map Some response_serial))
     = Inr ((False, snd (fst (projr serial_cycle))), snd (projr serial_cycle))"
    using serial_cycle_result by (simp only: serial_cycle_def [symmetric])
  from reading_valid_iff [OF run] run
  show ?thesis
    by (simp add: readOBISString_program)
qed

text \<open>
  The claim as stated fails: in the read cycle on a line that carries the serial
  number, both identification reads fail and no register is decoded, and the
  reading is still marked with \<open>dataValid\<close>.
\<close>

theorem reading_valid_counterexample:
  "\<not> isl serial_cycle
   \<and> fst (fst (projr serial_cycle)) = False
   \<and> serialNumber (snd (fst (projr serial_cycle))) = []
   \<and> dataValid (snd (fst (projr serial_cycle)))"
proof -
  note p = serial_cycle_result
  have "\<not> isl serial_cycle"
    by (subst p [THEN conjunct1]) simp
  moreover have "fst (fst (projr serial_cycle)) = False"
    by (subst p [THEN conjunct1]) simp
  moreover have "serialNumber (snd (fst (projr serial_cycle))) = []"
    and "dataValid (snd (fst (projr serial_cycle)))"
    using p by simp_all
  ultimately show ?thesis
    by (intro conjI)
qed

end
